theory Spec2Isabelle
  imports Main "HOL-Library.Word" "HOL-Library.Sublist"
begin

section \<open>JavaScript strings\<close>

text \<open>
  A JavaScript string is a sequence of UTF-16 code units. The literals of
  \<^verbatim>\<open>functions/index.js\<close> are ASCII, so each is written as an Isabelle string and
  converted, character by character, by \<open>js\<close>.
\<close>

type_synonym unit16 = "16 word"

type_synonym jsstring = "unit16 list"

definition js :: "string \<Rightarrow> jsstring" where
  "js s = map (\<lambda>c. of_nat (of_char c)) s"

text \<open>
  The class \<^verbatim>\<open>\s\<close> of a regular expression and the characters removed by
  \<^verbatim>\<open>String.prototype.trim\<close> are the same set: ECMAScript's WhiteSpace and
  LineTerminator code points.
\<close>

definition is_ws :: "unit16 \<Rightarrow> bool" where
  "is_ws u \<longleftrightarrow>
     u = 0x09 \<or> u = 0x0A \<or> u = 0x0B \<or> u = 0x0C \<or> u = 0x0D \<or> u = 0x20 \<or> u = 0xA0 \<or>
     u = 0x1680 \<or> (0x2000 \<le> u \<and> u \<le> 0x200A) \<or> u = 0x2028 \<or> u = 0x2029 \<or>
     u = 0x202F \<or> u = 0x205F \<or> u = 0x3000 \<or> u = 0xFEFF"

text \<open>\<^verbatim>\<open>s.trim()\<close>\<close>

definition trim :: "jsstring \<Rightarrow> jsstring" where
  "trim s = rev (dropWhile is_ws (rev (dropWhile is_ws s)))"

text \<open>
  \<^verbatim>\<open>s.replace(/pat/g, rep)\<close> for a pattern that is a literal, non-empty string (all
  the patterns of the source but \<^verbatim>\<open>/\s+/g\<close> are): the matches are found from left
  to right and do not overlap, the search going on after the end of each match. The
  source has no empty pattern; the guard \<open>pat \<noteq> []\<close> only makes the recursion total.
\<close>

function replace_all :: "jsstring \<Rightarrow> jsstring \<Rightarrow> jsstring \<Rightarrow> jsstring" where
  "replace_all pat rep [] = []"
| "replace_all pat rep (c # cs) =
     (if pat \<noteq> [] \<and> prefix pat (c # cs)
      then rep @ replace_all pat rep (drop (length pat) (c # cs))
      else c # replace_all pat rep cs)"
  by pat_completeness auto
termination
  by (relation "measure (\<lambda>(pat, rep, s). length s)") (auto simp: Suc_diff_le)

text \<open>\<^verbatim>\<open>s.replace(/\s+/g, ' ')\<close>: every maximal run of whitespace becomes one space.\<close>

function collapse_ws :: "jsstring \<Rightarrow> jsstring" where
  "collapse_ws [] = []"
| "collapse_ws (c # cs) =
     (if is_ws c then 0x20 # collapse_ws (dropWhile is_ws cs) else c # collapse_ws cs)"
  by pat_completeness auto
termination
  by (relation "measure length") (auto simp: length_dropWhile_le less_Suc_eq_le)

section \<open>The tag function \<open>ssml\<close>\<close>

datatype error = TypeError

text \<open>
  The four replacements applied to \<^verbatim>\<open>inputs[i - 1]\<close> in the callback of
  \<^verbatim>\<open>reduce\<close>, in the order of the source.
\<close>

definition escape :: "jsstring \<Rightarrow> jsstring" where
  \<open>escape s =
     replace_all (js ''"'') (js ''&quot;'')
       (replace_all (js ''>'') (js ''&gt;'')
         (replace_all (js ''<'') (js ''&lt;'')
           (replace_all (js ''&'') (js ''&amp;'') s)))\<close>

text \<open>
  A value interpolated into a template: a string, or a value of another kind that has
  no \<^verbatim>\<open>replace\<close> method (\<^verbatim>\<open>undefined\<close>, \<^verbatim>\<open>null\<close>, a number, a boolean).
\<close>

datatype jsvalue = StringValue jsstring | OtherValue

text \<open>
  The callback \<^verbatim>\<open>(out, str, i) => i ? out + (inputs[i - 1]. ...) + str : str\<close>.
  Where \<^verbatim>\<open>inputs[i - 1]\<close> is \<^verbatim>\<open>undefined\<close> (the array has no such element) or is
  not a string, calling \<^verbatim>\<open>replace\<close> on it throws a TypeError.
\<close>

definition callback :: "jsvalue list \<Rightarrow> jsstring \<Rightarrow> jsstring \<Rightarrow> nat \<Rightarrow> error + jsstring" where
  "callback inputs out str i =
     (if i \<noteq> 0
      then (if i - 1 < length inputs
            then (case inputs ! (i - 1) of
                    StringValue s \<Rightarrow> Inr (out @ escape s @ str)
                  | OtherValue \<Rightarrow> Inl TypeError)
            else Inl TypeError)
      else Inr str)"

text \<open>
  \<^verbatim>\<open>Array.prototype.reduce\<close> without an initial value: on an empty array it throws
  a TypeError; otherwise the accumulator starts as the first element and the callback
  runs on the elements from index 1 on.
\<close>

fun reduce_from :: "('a \<Rightarrow> 'a \<Rightarrow> nat \<Rightarrow> error + 'a) \<Rightarrow> 'a \<Rightarrow> nat \<Rightarrow> 'a list \<Rightarrow> error + 'a" where
  "reduce_from f acc i [] = Inr acc"
| "reduce_from f acc i (x # xs) =
     (case f acc x i of Inl e \<Rightarrow> Inl e | Inr acc' \<Rightarrow> reduce_from f acc' (Suc i) xs)"

definition reduce :: "('a \<Rightarrow> 'a \<Rightarrow> nat \<Rightarrow> error + 'a) \<Rightarrow> 'a list \<Rightarrow> error + 'a" where
  "reduce f xs = (case xs of [] \<Rightarrow> Inl TypeError | x # rest \<Rightarrow> reduce_from f x 1 rest)"

text \<open>
  The chain applied to the result of \<^verbatim>\<open>reduce\<close>:
  \<^verbatim>\<open>.trim().replace(/\s+/g, ' ').replace(/ </g, '<').replace(/> /g, '>')\<close>.
\<close>

definition normalize_ws :: "jsstring \<Rightarrow> jsstring" where
  "normalize_ws out =
     replace_all (js ''> '') (js ''>'')
       (replace_all (js '' <'') (js ''<'')
         (collapse_ws (trim out)))"

text \<open>
  The tag function of the source, \<^verbatim>\<open>ssml(template, ...inputs)\<close>, on values of any
  kind.
\<close>

definition ssml_tag :: "jsstring list \<Rightarrow> jsvalue list \<Rightarrow> error + jsstring" where
  "ssml_tag template inputs =
     (case reduce (callback inputs) template of
        Inl e \<Rightarrow> Inl e
      | Inr out \<Rightarrow> Inr (normalize_ws out))"

text \<open>
  The tag function on inputs of its documented type, \<^verbatim>\<open>Array<string>\<close>: every
  value is a string.
\<close>

definition ssml :: "jsstring list \<Rightarrow> jsstring list \<Rightarrow> error + jsstring" where
  "ssml template inputs = ssml_tag template (map StringValue inputs)"

section \<open>The Example Catalog\<close>

text \<open>
  The cooked text of a template literal, given by its source lines: the lines are
  joined by a line feed.
\<close>

fun join :: "jsstring \<Rightarrow> jsstring list \<Rightarrow> jsstring" where
  "join sep [] = []"
| "join sep [x] = x"
| "join sep (x # y # ys) = x @ sep @ join sep (y # ys)"

definition cooked :: "string list \<Rightarrow> jsstring" where
  "cooked ls = join [0x0A] (map js ls)"

text \<open>
  A template literal without substitutions tagged with \<open>ssml\<close> calls
  \<open>ssml\<close> with its one cooked string and no inputs. That call never throws (lemma
  \<open>ssml_literal\<close> below), so the value of the expression is the string it returns.
\<close>

definition tagged :: "jsstring \<Rightarrow> jsstring" where
  "tagged t = (case ssml [t] [] of Inr s \<Rightarrow> s | Inl e \<Rightarrow> [])"

definition break_template :: jsstring where
  \<open>break_template = cooked
    ['''',
     ''    <speak>'',
     ''      Step 1, take a deep breath. <break time="200ms" strength="weak"/>'',
     ''      Step 2, exhale.'',
     ''    </speak>'',
     ''  '']\<close>

definition say_as_template :: jsstring where
  \<open>say_as_template = cooked
    ['''',
     ''    <speak>'',
     ''      This interprets "12345" normally.'',
     ''      This interprets "<say-as interpret-as="cardinal">12345</say-as>" as a cardinal.'',
     ''      This interprets "1" normally.'',
     ''      This interprets "<say-as interpret-as="ordinal">1</say-as>" as an ordinal.'',
     ''      This interprets "can" normally.'',
     ''      This interprets "<say-as interpret-as="characters">can</say-as>" as characters.'',
     ''      This interprets "5+1/2" normally.'',
     ''      This interprets "<say-as interpret-as="fraction">5+1/2</say-as>" as a fraction.'',
     ''      This interprets "censored" normally.'',
     ''      This interprets "<say-as interpret-as="expletive">censored</say-as>" as an expletive.'',
     ''      This interprets "10 foot" normally.'',
     ''      This interprets "<say-as interpret-as="unit">10 foot</say-as>" as a unit.'',
     ''      This interprets "abcdefg" normally.'',
     ''      This interprets "<say-as interpret-as="verbatim">abcdefg</say-as>" as verbatim.'',
     ''      This interprets "1960-09-10" normally.'',
     ''      This interprets "<say-as interpret-as="date" format="ymd">1960-09-10</say-as>" as a date.'',
     ''      This interprets "2:30pm" normally.'',
     ''      This interprets "<say-as interpret-as="time" format="hms12">2:30pm</say-as>" as a time.'',
     ''      This interprets "(781) 771-7777" normally.'',
     ''      This interprets "<say-as interpret-as="telephone" format="1">'',
     ''        (781) 771-7777'',
     ''      </say-as>" as a telephone number.'',
     ''    </speak>'',
     ''  '']\<close>

definition audio_template :: jsstring where
  \<open>audio_template = cooked
    ['''',
     ''    <speak>'',
     ''      <audio src="https://actions.google.com/sounds/v1/animals/cat_purr_close.ogg">'',
     ''        <desc>Sound of a cat purring.</desc>'',
     ''        Audio resource for a cat purring failed to load.'',
     ''      </audio>'',
     ''    </speak>'',
     ''  '']\<close>

definition paragraph_template :: jsstring where
  \<open>paragraph_template = cooked
    ['''',
     ''    <speak>'',
     ''      <p>'',
     ''        <s>This is sentence one.</s>'',
     ''        <s>This is sentence two.</s>'',
     ''      </p>'',
     ''    </speak>'',
     ''  '']\<close>

definition sub_template :: jsstring where
  \<open>sub_template = cooked
    ['''',
     ''    <speak>'',
     ''      This is speaking "W3C" normally.'',
     ''      This is speaking "<sub alias="World Wide Web Consortium">W3C</sub>" using the sub tag.'',
     ''    </speak>'',
     ''  '']\<close>

definition prosody_template :: jsstring where
  \<open>prosody_template = cooked
    ['''',
     ''    <speak>'',
     ''      <prosody rate="100%" pitch="-2st">'',
     ''        My name is <prosody rate="slow">Wonder Woman</prosody>.'',
     ''      </prosody>'',
     ''      <break time="0.5s" />'',
     ''      <prosody pitch="+20st">Hi, my name is lowly worm.</prosody>'',
     ''      <prosody pitch="-10st">Hi, my name is huckleberry cat.</prosody>'',
     ''      <break time="1.5s" />Was that fun?'',
     ''      <prosody rate="x-fast">Hi I'm speaking fast.</prosody>'',
     ''      <prosody rate="x-slow">I'm speaking slow.</prosody>'',
     ''      <prosody volume="soft">I'm speaking softly.</prosody>'',
     ''      <prosody volume="x-loud">I'm speaking loud</prosody>'',
     ''      <prosody pitch="+20st">I'm speaking high.</prosody>'',
     ''      <prosody pitch="-20st">I'm speaking deep.</prosody>'',
     ''    </speak>'',
     ''  '']\<close>

definition emphasis_template :: jsstring where
  \<open>emphasis_template = cooked
    ['''',
     ''    <speak>'',
     ''      I would like to emphasize the importance of SSML.'',
     ''      I told you to pick up those toys an hour ago.'',
     ''      <emphasis>I told you to pick up those toys an hour ago.</emphasis>'',
     ''      <emphasis level="strong">I told you to pick up those toys an hour ago.</emphasis>'',
     ''      <emphasis level="moderate">I told you to pick up those toys an hour ago.</emphasis>'',
     ''      <emphasis level="reduced">I told you to pick up those toys an hour ago.</emphasis>'',
     ''      <emphasis level="none">I told you to pick up those toys an hour ago.</emphasis>'',
     ''    </speak>'',
     ''  '']\<close>

definition speed_template :: jsstring where
  \<open>speed_template = cooked
    ['''',
     ''    <speak>'',
     ''      This is without prosody.'',
     ''      <prosody rate="100%">This is speaking at 100% rate.</prosody>'',
     ''      <prosody rate="150%">This is speaking at 150% rate.</prosody>'',
     ''      <prosody rate="foo">This is speaking at normal rate.</prosody>'',
     ''      <prosody rate="200%">This is speaking at 200% rate.</prosody>'',
     ''      <prosody rate="medium">This is speaking at medium rate.</prosody>'',
     ''      <prosody rate="300%">This is speaking at 300% rate.</prosody>'',
     ''      <prosody rate="default">This is speaking at default rate.</prosody>'',
     ''      <prosody rate="75%">This is speaking at 75% rate.</prosody>'',
     ''      <prosody rate="50%">This is speaking at 50% rate.</prosody>'',
     ''      <prosody rate="25%">This is speaking at 25% rate.</prosody>'',
     ''      <prosody rate="10%">This is speaking at 10% rate.</prosody>'',
     ''    </speak>'',
     ''  '']\<close>

definition volume_template :: jsstring where
  \<open>volume_template = cooked
    ['''',
     ''    <speak>'',
     ''      This is without prosody.'',
     ''      <prosody volume="+5dB">This is speaking at +5dB volume.</prosody>'',
     ''      <prosody volume="100%">This is speaking at 100% volume.</prosody>'',
     ''      <prosody volume="loud">This is speaking at loud volume.</prosody>'',
     ''      <prosody volume="foo">This is speaking at normal volume.</prosody>'',
     ''      <prosody volume="+10dB">This is speaking at +10dB volume.</prosody>'',
     ''      <prosody volume="medium">This is speaking at medium volume.</prosody>'',
     ''      <prosody volume="x-loud">This is speaking at x-loud volume.</prosody>'',
     ''      <prosody volume="default">This is speaking at default volume.</prosody>'',
     ''      <prosody volume="-5dB">This is speaking at -5dB volume.</prosody>'',
     ''      <prosody volume="-10dB">This is speaking at -10dB volume.</prosody>'',
     ''      <prosody volume="soft">This is speaking at soft volume.</prosody>'',
     ''      <prosody volume="x-soft">This is speaking at x-soft volume.</prosody>'',
     ''    </speak>'',
     ''  '']\<close>

definition pitch_template :: jsstring where
  \<open>pitch_template = cooked
    ['''',
     ''    <speak>'',
     ''      This is without prosody.'',
     ''      <prosody pitch="+6st">This is speaking at +6 semitones pitch.</prosody>'',
     ''      <prosody pitch="foo">This is speaking at normal pitch.</prosody>'',
     ''      <prosody pitch="high">This is speaking at high pitch.</prosody>'',
     ''      <prosody pitch="+0st">This is speaking at +0 semitones pitch.</prosody>'',
     ''      <prosody pitch="medium">This is speaking at medium pitch.</prosody>'',
     ''      <prosody pitch="default">This is speaking at default pitch.</prosody>'',
     ''      <prosody pitch="+200%">This is speaking at +200% pitch.</prosody>'',
     ''      <prosody pitch="+12st">This is speaking at +12 semitones pitch.</prosody>'',
     ''      <prosody pitch="x-high">This is speaking at x-high pitch.</prosody>'',
     ''      <prosody pitch="-6st">This is speaking at -6 semitones pitch.</prosody>'',
     ''      <prosody pitch="low">This is speaking at low pitch.</prosody>'',
     ''      <prosody pitch="-12st">This is speaking at -12 semitones pitch.</prosody>'',
     ''      <prosody pitch="x-low">This is speaking at x-low pitch.</prosody>'',
     ''    </speak>'',
     ''  '']\<close>

text \<open>The object literal \<^verbatim>\<open>examples\<close>, its properties in the order of the source.\<close>

definition examples :: "(jsstring \<times> jsstring) list" where
  "examples =
     [(js ''break'', tagged break_template),
      (js ''say-as'', tagged say_as_template),
      (js ''audio'', tagged audio_template),
      (js ''paragraph'', tagged paragraph_template),
      (js ''sub'', tagged sub_template),
      (js ''prosody'', tagged prosody_template),
      (js ''emphasis'', tagged emphasis_template),
      (js ''speed'', tagged speed_template),
      (js ''volume'', tagged volume_template),
      (js ''pitch'', tagged pitch_template)]"

text \<open>
  A property read \<^verbatim>\<open>obj[key]\<close> on an object literal with string values gives the
  string of an own property, the inherited member for a property name of
  \<^verbatim>\<open>Object.prototype\<close>, and \<^verbatim>\<open>undefined\<close> for any other key.
\<close>

datatype jsval = Str jsstring | Undefined | Inherited jsstring

definition object_prototype_names :: "jsstring list" where
  "object_prototype_names =
     [js ''constructor'', js ''__defineGetter__'', js ''__defineSetter__'',
      js ''hasOwnProperty'', js ''__lookupGetter__'', js ''__lookupSetter__'',
      js ''isPrototypeOf'', js ''propertyIsEnumerable'', js ''toString'', js ''valueOf'',
      js ''__proto__'', js ''toLocaleString'']"

definition get_property :: "(jsstring \<times> jsstring) list \<Rightarrow> jsstring \<Rightarrow> jsval" where
  "get_property obj key =
     (case map_of obj key of
        Some v \<Rightarrow> Str v
      | None \<Rightarrow> if key \<in> set object_prototype_names then Inherited key else Undefined)"

section \<open>Actions, parameters and responses\<close>

definition TELL_EXAMPLE :: jsstring where
  "TELL_EXAMPLE = js ''tell.example''"

definition UNRECOGNIZED_DEEP_LINK :: jsstring where
  "UNRECOGNIZED_DEEP_LINK = js ''input.unknown''"

definition WELCOME :: jsstring where
  "WELCOME = js ''input.welcome''"

definition ELEMENT :: jsstring where
  "ELEMENT = js ''element''"

definition askExample :: jsstring where
  "askExample = js ''Ask me for an example of a SSML element.''"

text \<open>\<^verbatim>\<open>Object.keys(examples)\<close>: the own property names, in insertion order.\<close>

definition elements :: "jsstring list" where
  "elements = map fst examples"

text \<open>
  \<^verbatim>\<open>xs.slice(0, e)\<close>: a negative end counts from the end of the array, and the end
  is clamped to the array.
\<close>

definition slice0 :: "'a list \<Rightarrow> int \<Rightarrow> 'a list" where
  "slice0 xs e =
     take (nat (if e < 0 then max (int (length xs) + e) 0 else min e (int (length xs)))) xs"

text \<open>
  \<^verbatim>\<open>${xs[i]}\<close> inside a template literal: out of range the element is
  \<^verbatim>\<open>undefined\<close>, which is rendered as the text \<^verbatim>\<open>undefined\<close>.
\<close>

definition element_text :: "jsstring list \<Rightarrow> int \<Rightarrow> jsstring" where
  "element_text xs i = (if 0 \<le> i \<and> i < int (length xs) then xs ! nat i else js ''undefined'')"

definition examplesList :: jsstring where
  "examplesList =
     (js ''You can ask me about '' @
      join (js '', '') (slice0 elements (int (length elements) - 1))) @
     (js '', and '' @ element_text elements (int (length elements) - 1) @ js ''.'')"

definition didNotUnderstand :: jsstring where
  "didNotUnderstand = js ''Sorry, I didn't understand you. '' @ askExample @ js ''.''"

text \<open>\<^verbatim>\<open>completeResponses.welcome\<close>\<close>

definition welcome_response :: jsstring where
  \<open>welcome_response =
     (js ''Welcome! '' @ askExample @ js '' '') @
     js ''You can say "give me an example of the prosody element".''\<close>

definition leadToExample :: "jsstring \<Rightarrow> jsstring" where
  "leadToExample element = js ''Ok, here's an SSML example of '' @ element @ js ''.''"

section \<open>The conversation object and the handlers\<close>

text \<open>
  What the handlers use of a \<^verbatim>\<open>DialogflowApp\<close>: the action and the parameters of
  the request, read only, and the response it is asked to send. \<^verbatim>\<open>getArgument\<close>
  gives \<^verbatim>\<open>null\<close> (here \<open>None\<close>) for a parameter the request does not have;
  the value of a parameter is a string, as Dialogflow sends for an entity.
  A rich response is the list of the values given to \<^verbatim>\<open>addSimpleResponse\<close>, in the
  order of the calls. \<^verbatim>\<open>ask\<close> sends the response and keeps the conversation open
  for the user's next input.
\<close>

record rich_response =
  items :: "jsval list"

record app =
  action :: jsstring
  parameters :: "jsstring \<Rightarrow> jsstring option"
  sent :: "rich_response option"
  expect_user_response :: bool

definition getArgument :: "jsstring \<Rightarrow> app \<Rightarrow> jsstring option" where
  "getArgument name a = parameters a name"

definition buildRichResponse :: rich_response where
  "buildRichResponse = \<lparr>items = []\<rparr>"

definition addSimpleResponse :: "jsval \<Rightarrow> rich_response \<Rightarrow> rich_response" where
  "addSimpleResponse v r = r\<lparr>items := items r @ [v]\<rparr>"

definition ask :: "rich_response \<Rightarrow> app \<Rightarrow> app" where
  "ask r a = a\<lparr>sent := Some r, expect_user_response := True\<rparr>"

definition welcome_handler :: "app \<Rightarrow> app" where
  "welcome_handler a =
     (let richResponse =
        addSimpleResponse (Str examplesList)
          (addSimpleResponse (Str welcome_response) buildRichResponse)
      in ask richResponse a)"

text \<open>\<^verbatim>\<open>!element\<close> holds for \<^verbatim>\<open>null\<close> and for the empty string.\<close>

definition tell_example_handler :: "app \<Rightarrow> app" where
  "tell_example_handler a =
     (case getArgument ELEMENT a of
        None \<Rightarrow>
          ask (addSimpleResponse (Str examplesList)
                (addSimpleResponse (Str didNotUnderstand) buildRichResponse)) a
      | Some element \<Rightarrow>
          if element = []
          then ask (addSimpleResponse (Str examplesList)
                     (addSimpleResponse (Str didNotUnderstand) buildRichResponse)) a
          else ask (addSimpleResponse (get_property examples element)
                     (addSimpleResponse (Str (leadToExample element)) buildRichResponse)) a)"

definition unrecognized_deep_link_handler :: "app \<Rightarrow> app" where
  "unrecognized_deep_link_handler a =
     (let richResponse =
        addSimpleResponse (Str examplesList)
          (addSimpleResponse (Str didNotUnderstand) buildRichResponse)
      in ask richResponse a)"

definition actionMap :: "(jsstring \<times> (app \<Rightarrow> app)) list" where
  "actionMap =
     [(WELCOME, welcome_handler),
      (TELL_EXAMPLE, tell_example_handler),
      (UNRECOGNIZED_DEEP_LINK, unrecognized_deep_link_handler)]"

text \<open>
  \<^verbatim>\<open>app.handleRequest(actionMap)\<close> runs the handler stored under the action of the
  request; for an action without a handler no handler runs (\<open>None\<close>).
\<close>

definition handleRequest :: "(jsstring \<times> (app \<Rightarrow> app)) list \<Rightarrow> app \<Rightarrow> app option" where
  "handleRequest m a = map_option (\<lambda>handler. handler a) (map_of m (action a))"

text \<open>
  The entry point makes the conversation object of a request,
  \<^verbatim>\<open>new DialogflowApp({ request, response })\<close>, on which nothing has been sent yet,
  and hands it to the handler of its action.
\<close>

definition DialogflowApp :: "jsstring \<Rightarrow> (jsstring \<Rightarrow> jsstring option) \<Rightarrow> app" where
  "DialogflowApp act params =
     \<lparr>action = act, parameters = params, sent = None, expect_user_response = False\<rparr>"

definition ssmlExamples :: "jsstring \<Rightarrow> (jsstring \<Rightarrow> jsstring option) \<Rightarrow> app option" where
  "ssmlExamples act params = handleRequest actionMap (DialogflowApp act params)"

section \<open>Notions used in the statements\<close>

text \<open>The number of positions of a text at which a given string starts.\<close>

fun occurrences :: "jsstring \<Rightarrow> jsstring \<Rightarrow> nat" where
  "occurrences pat [] = (if pat = [] then 1 else 0)"
| "occurrences pat (c # cs) = (if prefix pat (c # cs) then 1 else 0) + occurrences pat cs"

text \<open>
  The reserved characters \<^verbatim>\<open>&\<close> (0x26), \<^verbatim>\<open><\<close> (0x3C), \<^verbatim>\<open>>\<close> (0x3E) and the
  double quote (0x22), and the entity that stands for each; any other character stands
  for itself. A text is safe when it has no reserved character.
\<close>

definition reserved :: "unit16 \<Rightarrow> bool" where
  "reserved c \<longleftrightarrow> c = 0x26 \<or> c = 0x3C \<or> c = 0x3E \<or> c = 0x22"

definition entity :: "unit16 \<Rightarrow> jsstring" where
  \<open>entity c =
     (if c = 0x26 then js ''&amp;''
      else if c = 0x3C then js ''&lt;''
      else if c = 0x3E then js ''&gt;''
      else if c = 0x22 then js ''&quot;''
      else [c])\<close>

definition safe :: "jsstring \<Rightarrow> bool" where
  "safe s \<longleftrightarrow> (\<forall>c \<in> set s. \<not> reserved c)"

text \<open>
  The concatenation of the fragments of a template with the values between them:
  fragment, value, fragment, and so on, ending with a fragment.
\<close>

fun weave :: "jsstring list \<Rightarrow> jsstring list \<Rightarrow> jsstring" where
  "weave [] vs = []"
| "weave [t] vs = t"
| "weave (t # t' # ts) [] = t"
| "weave (t # t' # ts) (v # vs) = t @ v @ weave (t' # ts) vs"



text \<open>
  Whitespace-normal form: no whitespace at either end, and no whitespace inside but
  single spaces (0x20).
\<close>

definition trimmed :: "jsstring \<Rightarrow> bool" where
  "trimmed s \<longleftrightarrow> s = [] \<or> (\<not> is_ws (hd s) \<and> \<not> is_ws (last s))"

definition single_spaced :: "jsstring \<Rightarrow> bool" where
  "single_spaced s \<longleftrightarrow> (\<forall>c \<in> set s. is_ws c \<longrightarrow> c = 0x20) \<and> \<not> sublist [0x20, 0x20] s"

definition ws_normal :: "jsstring \<Rightarrow> bool" where
  "ws_normal s \<longleftrightarrow> trimmed s \<and> single_spaced s"

text \<open>The words of a text: its maximal runs of characters that are not whitespace.\<close>

function ws_words :: "jsstring \<Rightarrow> jsstring list" where
  "ws_words [] = []"
| "ws_words (c # cs) =
     (if is_ws c then ws_words cs
      else (c # takeWhile (\<lambda>x. \<not> is_ws x) cs) # ws_words (dropWhile (\<lambda>x. \<not> is_ws x) cs))"
  by pat_completeness auto
termination
  by (relation "measure length") (auto simp: length_dropWhile_le less_Suc_eq_le)

definition words_ok :: "jsstring list \<Rightarrow> bool" where
  "words_ok ws \<longleftrightarrow> (\<forall>w \<in> set ws. w \<noteq> [] \<and> (\<forall>c \<in> set w. \<not> is_ws c))"

text \<open>
  Words written one after the other, with one space between two neighbours where
  \<open>spaced\<close> says so. Around tags a space stays between two words unless the left one
  ends with \<^verbatim>\<open>>\<close> or the right one starts with \<^verbatim>\<open><\<close>.
\<close>

fun glue_by :: "(jsstring \<Rightarrow> jsstring \<Rightarrow> bool) \<Rightarrow> jsstring list \<Rightarrow> jsstring" where
  "glue_by spaced [] = []"
| "glue_by spaced [w] = w"
| "glue_by spaced (w # w' # ws) =
     w @ (if spaced w w' then [0x20] else []) @ glue_by spaced (w' # ws)"

definition tag_spaced :: "jsstring \<Rightarrow> jsstring \<Rightarrow> bool" where
  "tag_spaced w w' \<longleftrightarrow> last w \<noteq> 0x3E \<and> hd w' \<noteq> 0x3C"

section \<open>Evaluation of the tag function\<close>

lemma js_Nil [simp]: "js [] = []"
  by (simp add: js_def)

lemma js_Cons [simp]: "js (c # cs) = of_nat (of_char c) # js cs"
  by (simp add: js_def)

lemma is_ws_simps [simp]: "is_ws 0x20" "\<not> is_ws 0x3C" "\<not> is_ws 0x3E"
  by (simp_all add: is_ws_def)

text \<open>
  C2: the documented example of the source. The fragments \<^verbatim>\<open><speak>\<close> and
  \<^verbatim>\<open></speak>\<close> with the one value \<^verbatim>\<open>"1 + 1 > 1"\<close> (quotes included) give
  \<^verbatim>\<open><speak>&quot;1 + 1 &gt; 1&quot;</speak>\<close>: the reserved characters of the value are
  replaced by entities, those of the fragments are kept. The indented template of the
  source's comment gives the same string.
\<close>

theorem ssml_documented_example:
  \<open>ssml [js ''<speak>'', js ''</speak>''] [js ''"1 + 1 > 1"'']
     = Inr (js ''<speak>&quot;1 + 1 &gt; 1&quot;</speak>'') \<and>
   ssml [js ''\<newline>  <speak>\<newline>    '', js ''\<newline>  </speak>\<newline>''] [js ''"1 + 1 > 1"'']
     = Inr (js ''<speak>&quot;1 + 1 &gt; 1&quot;</speak>'')\<close>
  by (simp add: ssml_def ssml_tag_def reduce_def callback_def escape_def normalize_ws_def trim_def is_ws_def)

section \<open>The loop of \<open>reduce\<close>\<close>

lemma callback_strings:
  "callback (map StringValue inputs) out str i =
     (if i \<noteq> 0
      then (if i - 1 < length inputs then Inr (out @ escape (inputs ! (i - 1)) @ str)
            else Inl TypeError)
      else Inr str)"
  by (simp add: callback_def)

lemma reduce_from_callback:
  "0 < i \<Longrightarrow> i + length xs \<le> Suc (length inputs) \<Longrightarrow>
   reduce_from (callback (map StringValue inputs)) (acc @ t) i xs
     = Inr (acc @ weave (t # xs) (map escape (drop (i - 1) inputs)))"
proof (induction xs arbitrary: acc t i)
  case Nil
  then show ?case by simp
next
  case (Cons x xs)
  from Cons.prems have lt: "i - 1 < length inputs" by simp
  have d: "drop (i - 1) inputs = inputs ! (i - 1) # drop i inputs"
    using lt Cons.prems(1) Cons_nth_drop_Suc [of "i - 1" inputs] by simp
  have cb: "callback (map StringValue inputs) (acc @ t) x i = Inr ((acc @ t @ escape (inputs ! (i - 1))) @ x)"
    using lt Cons.prems(1) by (simp add: callback_strings)
  have "reduce_from (callback (map StringValue inputs)) ((acc @ t @ escape (inputs ! (i - 1))) @ x) (Suc i) xs
      = Inr ((acc @ t @ escape (inputs ! (i - 1))) @
          weave (x # xs) (map escape (drop (Suc i - 1) inputs)))"
    using Cons.prems by (intro Cons.IH) simp_all
  then show ?case
    using cb d by simp
qed

lemma reduce_from_fails:
  "0 < i \<Longrightarrow> xs \<noteq> [] \<Longrightarrow> Suc (length inputs) < i + length xs \<Longrightarrow>
   reduce_from (callback (map StringValue inputs)) acc i xs = Inl TypeError"
proof (induction xs arbitrary: acc i)
  case Nil
  then show ?case by simp
next
  case (Cons x xs)
  show ?case
  proof (cases "i - 1 < length inputs")
    case True
    then have cb: "callback (map StringValue inputs) acc x i = Inr (acc @ escape (inputs ! (i - 1)) @ x)"
      using Cons.prems(1) by (simp add: callback_strings)
    from True Cons.prems have ne: "xs \<noteq> []"
      by (cases xs) auto
    have "reduce_from (callback (map StringValue inputs)) (acc @ escape (inputs ! (i - 1)) @ x) (Suc i) xs
        = Inl TypeError"
      using Cons.prems ne by (intro Cons.IH) simp_all
    then show ?thesis using cb by simp
  next
    case False
    then show ?thesis
      using Cons.prems(1) by (simp add: callback_strings)
  qed
qed

lemma ssml_weave:
  assumes "template \<noteq> []" and "length template \<le> Suc (length inputs)"
  shows "ssml template inputs = Inr (normalize_ws (weave template (map escape inputs)))"
proof -
  from assms(1) obtain t ts where tt: "template = t # ts"
    by (cases template) auto
  have "reduce_from (callback (map StringValue inputs)) ([] @ t) 1 ts
      = Inr ([] @ weave (t # ts) (map escape (drop (1 - 1) inputs)))"
    using assms(2) tt by (intro reduce_from_callback) simp_all
  then show ?thesis
    by (simp add: ssml_def ssml_tag_def reduce_def tt)
qed

lemma ssml_TypeError:
  assumes "template = [] \<or> Suc (length inputs) < length template"
  shows "ssml template inputs = Inl TypeError"
proof (cases template)
  case Nil
  then show ?thesis by (simp add: ssml_def ssml_tag_def reduce_def)
next
  case (Cons t ts)
  with assms have "Suc (length inputs) < 1 + length ts" and "ts \<noteq> []" by auto
  then have "reduce_from (callback (map StringValue inputs)) t 1 ts = Inl TypeError"
    by (intro reduce_from_fails) simp_all
  then show ?thesis
    by (simp add: ssml_def ssml_tag_def reduce_def Cons)
qed

lemma ssml_literal: "ssml [t] [] = Inr (normalize_ws t)"
  using ssml_weave [of "[t]" "[]"] by simp

lemma tagged_eq: "ssml [t] [] = Inr (tagged t)"
  by (simp add: tagged_def ssml_literal)










section \<open>Escaping of the values\<close>

lemma replace_all_unit:
  "replace_all [p] rep s = concat (map (\<lambda>c. if c = p then rep else [c]) s)"
  by (induction s) auto

lemma escape_unit: "escape [c] = entity c"
  by (simp add: escape_def entity_def)

lemma escape_append: "escape (xs @ ys) = escape xs @ escape ys"
  by (simp add: escape_def replace_all_unit)

lemma escape_entities: "escape v = concat (map entity v)"
proof (induction v)
  case Nil
  then show ?case by (simp add: escape_def)
next
  case (Cons c v)
  have "escape (c # v) = escape ([c] @ v)" by simp
  also have "\<dots> = entity c @ escape v"
    by (simp only: escape_append escape_unit)
  finally show ?case using Cons by simp
qed

text \<open>
  C3: whatever the fragments and however many the values, every value is escaped,
  and the four replacements in a row replace each reserved character of a value by its
  entity, once: the result is the normalized concatenation of the fragments with,
  between them, the entities of the characters of each value. So the \<^verbatim>\<open>&\<close> of
  an entity is not escaped again, and \<^verbatim>\<open><\<close> alone becomes \<^verbatim>\<open>&lt;\<close>.
\<close>

theorem ssml_escapes_each_character_once:
  \<open>ssml template inputs =
     (if template \<noteq> [] \<and> length template \<le> Suc (length inputs)
      then Inr (normalize_ws (weave template (map (\<lambda>v. concat (map entity v)) inputs)))
      else Inl TypeError) \<and>
   ssml [a, b] [v] = Inr (normalize_ws (a @ concat (map entity v) @ b)) \<and>
   escape v = concat (map entity v) \<and>
   escape (js ''<'') = js ''&lt;'' \<and>
   ssml [[], []] [js ''<''] = Inr (js ''&lt;'') \<and>
   ssml [[], []] [js ''a & b < c > "d"''] = Inr (js ''a &amp; b &lt; c &gt; &quot;d&quot;'') \<and>
   ssml [js ''a'', js ''b'', js ''c''] [js ''<'', js ''&''] = Inr (js ''a&lt;b&amp;c'')\<close>
proof (intro conjI)
  have e: "map escape inputs = map (\<lambda>v. concat (map entity v)) inputs"
    by (simp add: escape_entities)
  show "ssml template inputs =
     (if template \<noteq> [] \<and> length template \<le> Suc (length inputs)
      then Inr (normalize_ws (weave template (map (\<lambda>v. concat (map entity v)) inputs)))
      else Inl TypeError)"
  proof (cases "template \<noteq> [] \<and> length template \<le> Suc (length inputs)")
    case True
    then have "ssml template inputs = Inr (normalize_ws (weave template (map escape inputs)))"
      by (intro ssml_weave) simp_all
    with True show ?thesis by (simp add: e)
  next
    case False
    then have "ssml template inputs = Inl TypeError"
      by (intro ssml_TypeError) auto
    with False show ?thesis by auto
  qed
  show "ssml [a, b] [v] = Inr (normalize_ws (a @ concat (map entity v) @ b))"
    using ssml_weave [of "[a, b]" "[v]"] by (simp add: escape_entities)
  show "escape v = concat (map entity v)"
    by (rule escape_entities)
  show "escape (js ''<'') = js ''&lt;''"
    by (simp add: escape_def)
  show "ssml [[], []] [js ''<''] = Inr (js ''&lt;'')"
    by (simp add: ssml_def ssml_tag_def reduce_def callback_def escape_def normalize_ws_def
        trim_def is_ws_def)
  show \<open>ssml [[], []] [js ''a & b < c > "d"'']
      = Inr (js ''a &amp; b &lt; c &gt; &quot;d&quot;'')\<close>
    by (simp add: ssml_def ssml_tag_def reduce_def callback_def escape_def normalize_ws_def
        trim_def is_ws_def)
  show "ssml [js ''a'', js ''b'', js ''c''] [js ''<'', js ''&''] = Inr (js ''a&lt;b&amp;c'')"
    by (simp add: ssml_def ssml_tag_def reduce_def callback_def escape_def normalize_ws_def
        trim_def is_ws_def)
qed

section \<open>Text that is already safe and normal\<close>

lemma trim_id:
  assumes "trimmed s"
  shows "trim s = s"
proof (cases "s = []")
  case True
  then show ?thesis by (simp add: trim_def)
next
  case False
  with assms have h: "\<not> is_ws (hd s)" and l: "\<not> is_ws (last s)"
    by (simp_all add: trimmed_def)
  from h have "dropWhile is_ws s = s"
    by (simp add: dropWhile_eq_self_iff)
  moreover from l False have "dropWhile is_ws (rev s) = rev s"
    by (simp add: dropWhile_eq_self_iff hd_rev)
  ultimately show ?thesis
    by (simp add: trim_def)
qed

lemma collapse_ws_id: "single_spaced s \<Longrightarrow> collapse_ws s = s"
proof (induction s)
  case Nil
  then show ?case by simp
next
  case (Cons c cs)
  from Cons.prems have tl: "single_spaced cs"
    by (auto simp: single_spaced_def sublist_Cons_right)
  show ?case
  proof (cases "is_ws c")
    case True
    with Cons.prems have c: "c = 0x20"
      by (simp add: single_spaced_def)
    have "cs = [] \<or> \<not> is_ws (hd cs)"
    proof (cases cs)
      case Nil
      then show ?thesis by simp
    next
      case (Cons d ds)
      with Cons.prems c show ?thesis
        by (auto simp: single_spaced_def sublist_Cons_right)
    qed
    then have "dropWhile is_ws cs = cs"
      by (simp add: dropWhile_eq_self_iff)
    with True c Cons.IH [OF tl] show ?thesis by simp
  next
    case False
    with Cons.IH [OF tl] show ?thesis by simp
  qed
qed

lemma replace_all_absent:
  "x \<in> set pat \<Longrightarrow> x \<notin> set s \<Longrightarrow> replace_all pat rep s = s"
proof (induction s)
  case Nil
  then show ?case by simp
next
  case (Cons c cs)
  have "\<not> prefix pat (c # cs)"
  proof
    assume "prefix pat (c # cs)"
    then have "set pat \<subseteq> set (c # cs)" by (rule set_mono_prefix)
    with Cons.prems show False by auto
  qed
  with Cons show ?case by simp
qed

lemma normalize_id:
  assumes "ws_normal s" and "0x3C \<notin> set s" and "0x3E \<notin> set s"
  shows "normalize_ws s = s"
proof -
  have "collapse_ws (trim s) = s"
    using assms(1) by (simp add: ws_normal_def trim_id collapse_ws_id)
  moreover have "replace_all (js '' <'') (js ''<'') s = s"
    using assms(2) by (intro replace_all_absent [of "0x3C"]) simp_all
  moreover have "replace_all (js ''> '') (js ''>'') s = s"
    using assms(3) by (intro replace_all_absent [of "0x3E"]) simp_all
  ultimately show ?thesis
    by (simp only: normalize_ws_def)
qed

lemma escape_id: "safe s \<Longrightarrow> escape s = s"
  unfolding escape_entities safe_def
  by (induction s) (auto simp: entity_def reserved_def)

text \<open>
  C8: a text without reserved characters and in whitespace-normal form comes back
  unchanged, both as the only fragment of a template and as the value between two
  empty fragments.
\<close>

theorem ssml_identity_on_safe_normal_text:
  assumes "safe s" and "ws_normal s"
  shows "ssml [s] [] = Inr s \<and> ssml [[], []] [s] = Inr s"
proof -
  from assms(1) have "0x3C \<notin> set s" and "0x3E \<notin> set s"
    by (auto simp: safe_def reserved_def)
  with assms(2) have n: "normalize_ws s = s"
    by (intro normalize_id)
  have "ssml [[], []] [s] = Inr (normalize_ws (weave [[], []] (map escape [s])))"
    by (intro ssml_weave) simp_all
  with n assms(1) show ?thesis
    by (simp add: ssml_literal escape_id)
qed

theorem ssml_identity_on_safe_normal_text_witness:
  "safe (js ''Step 2, exhale.'') \<and> ws_normal (js ''Step 2, exhale.'') \<and>
   ssml [js ''Step 2, exhale.''] [] = Inr (js ''Step 2, exhale.'') \<and>
   ssml [[], []] [js ''Step 2, exhale.''] = Inr (js ''Step 2, exhale.'')"
proof -
  have h1: "safe (js ''Step 2, exhale.'')"
    by (simp add: safe_def reserved_def)
  have h2: "ws_normal (js ''Step 2, exhale.'')"
    by (simp add: ws_normal_def trimmed_def single_spaced_def is_ws_def sublist_Cons_right)
  from ssml_identity_on_safe_normal_text [OF h1 h2] h1 h2 show ?thesis
    by blast
qed

section \<open>Normalization of whitespace\<close>

subsection \<open>Trimming and collapsing give the words, one space apart\<close>

lemma words_ok_Nil: "words_ok []"
  by (simp add: words_ok_def)

lemma words_ok_Cons:
  "words_ok (w # ws) \<longleftrightarrow> w \<noteq> [] \<and> (\<forall>c \<in> set w. \<not> is_ws c) \<and> words_ok ws"
  by (simp add: words_ok_def)

lemma ws_words_ok: "words_ok (ws_words s)"
proof (induction s rule: ws_words.induct)
  case 1
  then show ?case by (simp add: words_ok_Nil)
next
  case (2 c cs)
  show ?case
  proof (cases "is_ws c")
    case True
    with 2 show ?thesis by simp
  next
    case False
    have "\<forall>x \<in> set (takeWhile (\<lambda>x. \<not> is_ws x) cs). \<not> is_ws x"
      by (blast dest: set_takeWhileD)
    with False "2.IH"(2) [OF False] show ?thesis
      by (simp add: words_ok_Cons)
  qed
qed

lemma ws_words_dropWhile: "ws_words (dropWhile is_ws s) = ws_words s"
  by (induction s) simp_all

lemma ws_words_all_ws: "\<forall>c \<in> set b. is_ws c \<Longrightarrow> ws_words b = []"
  by (induction b) simp_all

lemma ws_words_append_ws:
  "\<forall>c \<in> set b. is_ws c \<Longrightarrow> ws_words (a @ b) = ws_words a"
proof (induction a rule: ws_words.induct)
  case 1
  then show ?case by (simp add: ws_words_all_ws)
next
  case (2 c cs)
  show ?case
  proof (cases "is_ws c")
    case True
    with 2 show ?thesis by simp
  next
    case False
    let ?nws = "\<lambda>x. \<not> is_ws x"
    have tb: "takeWhile ?nws b = []"
      using "2.prems" by (cases b) simp_all
    have db: "dropWhile ?nws b = b"
      using "2.prems" by (cases b) simp_all
    have t: "takeWhile ?nws (cs @ b) = takeWhile ?nws cs"
    proof (cases "\<forall>x \<in> set cs. ?nws x")
      case True
      then have e: "takeWhile ?nws cs = cs" by simp
      have "takeWhile ?nws (cs @ b) = cs @ takeWhile ?nws b"
        using True by (simp add: takeWhile_append)
      then show ?thesis by (simp only: tb e append_Nil2)
    next
      case False
      then show ?thesis by (auto simp: takeWhile_append)
    qed
    have d: "dropWhile ?nws (cs @ b) = dropWhile ?nws cs @ b"
    proof (cases "\<forall>x \<in> set cs. ?nws x")
      case True
      then have e: "dropWhile ?nws cs = []" by simp
      have "dropWhile ?nws (cs @ b) = dropWhile ?nws b"
        using True by (simp add: dropWhile_append)
      then show ?thesis by (simp only: db e append_Nil)
    next
      case False
      then show ?thesis by (auto simp: dropWhile_append)
    qed
    have "ws_words (dropWhile ?nws cs @ b) = ws_words (dropWhile ?nws cs)"
      using False "2.prems" by (rule "2.IH"(2))
    then show ?thesis
      using False by (simp only: append_Cons ws_words.simps t d if_False)
  qed
qed

lemma ws_words_trim: "ws_words (trim s) = ws_words s"
proof -
  let ?d = "dropWhile is_ws s"
  let ?t = "takeWhile is_ws (rev ?d)"
  have "rev (rev ?d) = rev (?t @ dropWhile is_ws (rev ?d))"
    by (simp only: takeWhile_dropWhile_id)
  then have d: "?d = trim s @ rev ?t"
    by (simp only: rev_rev_ident rev_append trim_def)
  have "\<forall>c \<in> set (rev ?t). is_ws c"
    by (auto dest: set_takeWhileD)
  then have "ws_words (trim s @ rev ?t) = ws_words (trim s)"
    by (rule ws_words_append_ws)
  with d have "ws_words ?d = ws_words (trim s)"
    by simp
  then show ?thesis
    by (simp only: ws_words_dropWhile)
qed

lemma last_dropWhile:
  assumes "dropWhile P xs \<noteq> []"
  shows "last (dropWhile P xs) = last xs"
proof -
  have "last (takeWhile P xs @ dropWhile P xs) = last (dropWhile P xs)"
    using assms by (rule last_appendR)
  then show ?thesis
    by (simp only: takeWhile_dropWhile_id)
qed

lemma trimmed_trim: "trimmed (trim s)"
proof (cases "trim s = []")
  case True
  then show ?thesis by (simp add: trimmed_def)
next
  case False
  let ?d = "dropWhile is_ws s"
  let ?e = "dropWhile is_ws (rev ?d)"
  from False have e: "?e \<noteq> []" by (simp add: trim_def)
  have d: "?d \<noteq> []"
  proof
    assume "?d = []"
    then have "?e = []" by (simp only: rev.simps dropWhile.simps)
    with e show False by simp
  qed
  have t: "trim s = rev ?e" by (simp add: trim_def)
  have "last (trim s) = hd ?e"
    unfolding t using e by (simp add: last_rev)
  moreover have "\<not> is_ws (hd ?e)"
    using e by (rule hd_dropWhile)
  ultimately have l: "\<not> is_ws (last (trim s))" by simp
  have "hd (trim s) = last ?e"
    unfolding t using e by (simp add: hd_rev)
  also have "last ?e = last (rev ?d)"
    using e by (rule last_dropWhile)
  also have "last (rev ?d) = hd ?d"
    using d by (simp add: last_rev)
  finally have "hd (trim s) = hd ?d" .
  moreover have "\<not> is_ws (hd ?d)"
    using d by (rule hd_dropWhile)
  ultimately have h: "\<not> is_ws (hd (trim s))" by simp
  from h l show ?thesis
    by (simp add: trimmed_def)
qed

lemma ws_words_empty_iff: "ws_words s = [] \<longleftrightarrow> (\<forall>c \<in> set s. is_ws c)"
  by (induction s) simp_all

lemma glue_by_Cons:
  "glue_by k (w # ws) = w @ (if ws = [] then [] else (if k w (hd ws) then [0x20] else []) @ glue_by k ws)"
  by (cases ws) simp_all

lemma ws_words_Cons_nws:
  assumes "\<not> is_ws c"
  shows "ws_words (c # cs) =
    (if cs = [] \<or> is_ws (hd cs) then [c] # ws_words cs
     else (c # hd (ws_words cs)) # tl (ws_words cs))"
proof (cases cs)
  case Nil
  with assms show ?thesis by simp
next
  case (Cons d ds)
  with assms show ?thesis by simp
qed

lemma glue_by_True_Cons_Cons:
  "glue_by (\<lambda>_ _. True) ((c # w) # ws) = c # glue_by (\<lambda>_ _. True) (w # ws)"
  by (cases ws) simp_all

lemma collapse_ws_words:
  "s = [] \<or> \<not> is_ws (last s) \<Longrightarrow>
   collapse_ws s =
     (if s \<noteq> [] \<and> is_ws (hd s) then 0x20 # glue_by (\<lambda>_ _. True) (ws_words s)
      else glue_by (\<lambda>_ _. True) (ws_words s))"
proof (induction s rule: collapse_ws.induct)
  case 1
  then show ?case by simp
next
  case (2 c cs)
  let ?J = "\<lambda>s. glue_by (\<lambda>_ _. True) (ws_words s)"
  show ?case
  proof (cases "is_ws c")
    case True
    let ?d = "dropWhile is_ws cs"
    from "2.prems" True have cs: "cs \<noteq> []" and lcs: "\<not> is_ws (last cs)"
      by (auto split: if_splits)
    have d: "?d \<noteq> []"
    proof
      assume "?d = []"
      then have "\<forall>x \<in> set cs. is_ws x" by simp
      with cs lcs show False using last_in_set by blast
    qed
    then have "last ?d = last cs" by (rule last_dropWhile)
    with lcs have p: "?d = [] \<or> \<not> is_ws (last ?d)" by simp
    have h: "\<not> is_ws (hd ?d)" using d by (rule hd_dropWhile)
    have "collapse_ws ?d = ?J ?d"
      using "2.IH"(1) [OF True p] d h by simp
    then show ?thesis
      using True by (simp add: ws_words_dropWhile)
  next
    case False
    show ?thesis
    proof (cases "cs = []")
      case True
      with False show ?thesis by simp
    next
      case ne: False
      with "2.prems" have p: "cs = [] \<or> \<not> is_ws (last cs)" by simp
      note IH = "2.IH"(2) [OF False p]
      show ?thesis
      proof (cases "is_ws (hd cs)")
        case True
        from ne p have "ws_words cs \<noteq> []"
          using last_in_set by (auto simp: ws_words_empty_iff)
        moreover have "ws_words (c # cs) = [c] # ws_words cs"
          using False True by (simp only: ws_words_Cons_nws [OF False] if_True simp_thms)
        ultimately have "?J (c # cs) = c # 0x20 # ?J cs"
          by (simp add: glue_by_Cons del: ws_words.simps)
        then show ?thesis
          using False True ne IH by (simp del: ws_words.simps)
      next
        case nws: False
        from ne nws obtain d ds where cs: "cs = d # ds" and d: "\<not> is_ws d"
          by (cases cs) auto
        have w: "ws_words cs = hd (ws_words cs) # tl (ws_words cs)"
          using d by (simp add: cs)
        have "ws_words (c # cs) = (c # hd (ws_words cs)) # tl (ws_words cs)"
          using nws ne by (simp only: ws_words_Cons_nws [OF False] if_False simp_thms)
        then have "?J (c # cs) = c # glue_by (\<lambda>_ _. True) (hd (ws_words cs) # tl (ws_words cs))"
          by (simp only: glue_by_True_Cons_Cons)
        then have "?J (c # cs) = c # ?J cs"
          using w by simp
        then show ?thesis
          using False nws ne IH by (simp del: ws_words.simps)
      qed
    qed
  qed
qed

lemma collapse_ws_trim: "collapse_ws (trim s) = glue_by (\<lambda>_ _. True) (ws_words s)"
proof -
  have t: "trimmed (trim s)" by (rule trimmed_trim)
  then have "trim s = [] \<or> \<not> is_ws (last (trim s))"
    by (auto simp: trimmed_def)
  then have "collapse_ws (trim s) =
     (if trim s \<noteq> [] \<and> is_ws (hd (trim s)) then 0x20 # glue_by (\<lambda>_ _. True) (ws_words (trim s))
      else glue_by (\<lambda>_ _. True) (ws_words (trim s)))"
    by (rule collapse_ws_words)
  with t show ?thesis
    by (auto simp: trimmed_def ws_words_trim)
qed

subsection \<open>The two replacements around tags\<close>

lemma replace_lt_word:
  "0x20 \<notin> set w \<Longrightarrow>
   replace_all [0x20, 0x3C] [0x3C] (w @ rest) = w @ replace_all [0x20, 0x3C] [0x3C] rest"
  by (induction w) auto

lemma replace_lt_space:
  "replace_all [0x20, 0x3C] [0x3C] (0x20 # t) =
     (if t \<noteq> [] \<and> hd t = 0x3C then replace_all [0x20, 0x3C] [0x3C] t
      else 0x20 # replace_all [0x20, 0x3C] [0x3C] t)"
  by (cases t) auto

lemma words_ok_no_space: "words_ok (w # ws) \<Longrightarrow> 0x20 \<notin> set w"
  by (auto simp: words_ok_Cons)

lemma hd_glue_by: "w \<noteq> [] \<Longrightarrow> hd (glue_by k (w # ws)) = hd w"
  by (simp add: glue_by_Cons)

lemma glue_by_nonempty: "w \<noteq> [] \<Longrightarrow> glue_by k (w # ws) \<noteq> []"
  by (simp add: glue_by_Cons)

lemma replace_lt_glue:
  "words_ok ws \<Longrightarrow>
   replace_all [0x20, 0x3C] [0x3C] (glue_by (\<lambda>_ _. True) ws)
     = glue_by (\<lambda>w w'. hd w' \<noteq> 0x3C) ws"
proof (induction ws rule: induct_list012)
  case 1
  then show ?case by simp
next
  case (2 w)
  then have "0x20 \<notin> set w" by (rule words_ok_no_space)
  then have "replace_all [0x20, 0x3C] [0x3C] (w @ []) = w @ replace_all [0x20, 0x3C] [0x3C] []"
    by (rule replace_lt_word)
  then show ?case by simp
next
  case (3 w w' ws)
  let ?g = "glue_by (\<lambda>_ _. True) (w' # ws)"
  from "3.prems" have ok: "words_ok (w' # ws)" and w: "0x20 \<notin> set w" and w': "w' \<noteq> []"
    by (auto simp: words_ok_Cons)
  have IH: "replace_all [0x20, 0x3C] [0x3C] ?g = glue_by (\<lambda>w w'. hd w' \<noteq> 0x3C) (w' # ws)"
    using ok by (rule "3.IH"(2))
  have g: "?g \<noteq> []" "hd ?g = hd w'"
    using w' by (simp_all add: glue_by_Cons)
  have "replace_all [0x20, 0x3C] [0x3C] (w @ 0x20 # ?g)
      = w @ replace_all [0x20, 0x3C] [0x3C] (0x20 # ?g)"
    using w by (rule replace_lt_word)
  also have "replace_all [0x20, 0x3C] [0x3C] (0x20 # ?g)
      = (if hd w' \<noteq> 0x3C then [0x20] else []) @ replace_all [0x20, 0x3C] [0x3C] ?g"
    using g by (simp only: replace_lt_space) simp
  finally show ?case
    using IH by simp
qed

lemma replace_gt_word:
  "0x20 \<notin> set w \<Longrightarrow> rest = [] \<or> hd rest \<noteq> 0x20 \<Longrightarrow>
   replace_all [0x3E, 0x20] [0x3E] (w @ rest) = w @ replace_all [0x3E, 0x20] [0x3E] rest"
proof (induction w)
  case Nil
  then show ?case by simp
next
  case (Cons c w)
  have "\<not> prefix [0x3E, 0x20] (c # w @ rest)"
  proof (cases w)
    case Nil
    with Cons.prems show ?thesis by (cases rest) auto
  next
    case (Cons d ds)
    with Cons.prems show ?thesis by auto
  qed
  with Cons show ?case by auto
qed

lemma replace_gt_word_space:
  "0x20 \<notin> set w \<Longrightarrow> w \<noteq> [] \<Longrightarrow>
   replace_all [0x3E, 0x20] [0x3E] (w @ 0x20 # rest)
     = w @ (if last w = 0x3E then [] else [0x20]) @ replace_all [0x3E, 0x20] [0x3E] rest"
proof (induction w)
  case Nil
  then show ?case by simp
next
  case (Cons c w)
  show ?case
  proof (cases w)
    case Nil
    then show ?thesis by auto
  next
    case (Cons d ds)
    with Cons.prems have "\<not> prefix [0x3E, 0x20] (c # w @ 0x20 # rest)" by auto
    with Cons.prems Cons.IH Cons show ?thesis by auto
  qed
qed

lemma replace_gt_glue:
  "words_ok ws \<Longrightarrow>
   replace_all [0x3E, 0x20] [0x3E] (glue_by (\<lambda>w w'. hd w' \<noteq> 0x3C) ws)
     = glue_by tag_spaced ws"
proof (induction ws rule: induct_list012)
  case 1
  then show ?case by simp
next
  case (2 w)
  then have "0x20 \<notin> set w" by (rule words_ok_no_space)
  then have "replace_all [0x3E, 0x20] [0x3E] (w @ []) = w @ replace_all [0x3E, 0x20] [0x3E] []"
    by (intro replace_gt_word) simp_all
  then show ?case by simp
next
  case (3 w w' ws)
  let ?g = "glue_by (\<lambda>w w'. hd w' \<noteq> 0x3C) (w' # ws)"
  from "3.prems" have ok: "words_ok (w' # ws)" and w: "0x20 \<notin> set w" "w \<noteq> []"
    and w': "w' \<noteq> []" "0x20 \<notin> set w'"
    by (auto simp: words_ok_Cons)
  have IH: "replace_all [0x3E, 0x20] [0x3E] ?g = glue_by tag_spaced (w' # ws)"
    using ok by (rule "3.IH"(2))
  have "hd ?g = hd w'"
    using w' by (simp add: glue_by_Cons)
  moreover have "hd w' \<noteq> 0x20"
    using w' by (cases w') auto
  ultimately have g: "?g = [] \<or> hd ?g \<noteq> 0x20" by simp
  show ?case
  proof (cases "hd w' = 0x3C")
    case True
    have "replace_all [0x3E, 0x20] [0x3E] (w @ ?g) = w @ replace_all [0x3E, 0x20] [0x3E] ?g"
      using w(1) g by (rule replace_gt_word)
    moreover have "\<not> tag_spaced w w'"
      using True by (simp add: tag_spaced_def)
    ultimately show ?thesis
      using True IH by simp
  next
    case False
    have "replace_all [0x3E, 0x20] [0x3E] (w @ 0x20 # ?g)
        = w @ (if last w = 0x3E then [] else [0x20]) @ replace_all [0x3E, 0x20] [0x3E] ?g"
      using w by (rule replace_gt_word_space)
    moreover have "tag_spaced w w' \<longleftrightarrow> last w \<noteq> 0x3E"
      using False by (simp add: tag_spaced_def)
    ultimately show ?thesis
      using False IH by simp
  qed
qed

lemma normalize_glue: "normalize_ws s = glue_by tag_spaced (ws_words s)"
  by (simp add: normalize_ws_def collapse_ws_trim replace_lt_glue replace_gt_glue ws_words_ok)

subsection \<open>What the result looks like\<close>

lemma sublist_pair_append:
  "sublist [x, y] (a @ b) \<longleftrightarrow>
     sublist [x, y] a \<or> sublist [x, y] b \<or> (a \<noteq> [] \<and> b \<noteq> [] \<and> last a = x \<and> hd b = y)"
proof (induction a)
  case Nil
  then show ?case by simp
next
  case (Cons c a)
  show ?case
  proof (cases a)
    case Nil
    then show ?thesis
      by (cases b) (auto simp: sublist_Cons_right)
  next
    case (Cons d ds)
    with Cons.IH show ?thesis
      by (auto simp: sublist_Cons_right)
  qed
qed

lemma word_no_pair:
  assumes "0x20 \<notin> set w" and "x = 0x20 \<or> y = 0x20"
  shows "\<not> sublist [x, y] w"
proof
  assume "sublist [x, y] w"
  then have "set [x, y] \<subseteq> set w" by (rule set_mono_sublist)
  with assms show False by auto
qed

lemma last_not_space: "w \<noteq> [] \<Longrightarrow> x \<notin> set w \<Longrightarrow> last w \<noteq> x"
  using last_in_set [of w] by blast

lemma hd_not_space: "w \<noteq> [] \<Longrightarrow> x \<notin> set w \<Longrightarrow> hd w \<noteq> x"
  using hd_in_set [of w] by blast

lemma last_glue_by:
  "words_ok ws \<Longrightarrow> ws \<noteq> [] \<Longrightarrow> last (glue_by k ws) = last (last ws)"
proof (induction ws rule: induct_list012)
  case 1
  then show ?case by simp
next
  case (2 w)
  then show ?case by simp
next
  case (3 w w' ws)
  from "3.prems" have ok: "words_ok (w' # ws)" and w': "w' \<noteq> []"
    by (auto simp: words_ok_Cons)
  have "glue_by k (w' # ws) \<noteq> []"
    using w' by (rule glue_by_nonempty)
  then show ?case
    using "3.IH"(2) [OF ok] by simp
qed

lemma glue_by_no_pair:
  assumes ok: "words_ok ws"
    and xy: "x = 0x20 \<or> y = 0x20"
    and k: "\<And>w w'. w \<noteq> [] \<Longrightarrow> w' \<noteq> [] \<Longrightarrow> 0x20 \<notin> set w \<Longrightarrow> 0x20 \<notin> set w' \<Longrightarrow> k w w' \<Longrightarrow>
             \<not> (y = 0x20 \<and> last w = x) \<and> \<not> (x = 0x20 \<and> hd w' = y)"
  shows "\<not> sublist [x, y] (glue_by k ws)"
  using ok
proof (induction ws rule: induct_list012)
  case 1
  then show ?case by simp
next
  case (2 w)
  then have "0x20 \<notin> set w" by (rule words_ok_no_space)
  then show ?case
    using xy by (simp add: word_no_pair)
next
  case (3 w w' ws)
  let ?g = "glue_by k (w' # ws)"
  from "3.prems" have ok': "words_ok (w' # ws)" and w: "0x20 \<notin> set w" "w \<noteq> []"
    and w': "w' \<noteq> []" "0x20 \<notin> set w'"
    by (auto simp: words_ok_Cons)
  have g: "\<not> sublist [x, y] ?g" using ok' by (rule "3.IH"(2))
  have nw: "\<not> sublist [x, y] w" using w(1) xy by (rule word_no_pair)
  have gne: "?g \<noteq> []" using w'(1) by (rule glue_by_nonempty)
  have hg: "hd ?g = hd w'" using w'(1) by (rule hd_glue_by)
  have lw: "last w \<noteq> 0x20" using w(2,1) by (rule last_not_space)
  have hw': "hd w' \<noteq> 0x20" using w' by (rule hd_not_space)
  show ?case
  proof (cases "k w w'")
    case True
    from k [OF w(2) w'(1) w(1) w'(2) True]
    have b: "\<not> (y = 0x20 \<and> last w = x)" "\<not> (x = 0x20 \<and> hd w' = y)" by simp_all
    have n1: "\<not> sublist [x, y] (w @ [0x20])"
      using nw b(1) w(2) by (auto simp: sublist_pair_append sublist_Cons_right)
    have e: "sublist [x, y] ((w @ [0x20]) @ ?g) \<longleftrightarrow>
        sublist [x, y] (w @ [0x20]) \<or> sublist [x, y] ?g \<or>
        (w @ [0x20] \<noteq> [] \<and> ?g \<noteq> [] \<and> last (w @ [0x20]) = x \<and> hd ?g = y)"
      by (rule sublist_pair_append)
    have "\<not> sublist [x, y] ((w @ [0x20]) @ ?g)"
      unfolding e using n1 g hg b(2) by auto
    with True show ?thesis by simp
  next
    case False
    have "\<not> sublist [x, y] (w @ ?g)"
      using nw g hg lw hw' xy by (auto simp: sublist_pair_append)
    with False show ?thesis by simp
  qed
qed

lemma set_glue_by: "set (glue_by k ws) \<subseteq> (\<Union>w \<in> set ws. set w) \<union> {0x20}"
  by (induction ws rule: induct_list012) auto

lemma trimmed_glue_by:
  assumes "words_ok ws"
  shows "trimmed (glue_by k ws)"
proof (cases ws)
  case Nil
  then show ?thesis by (simp add: trimmed_def)
next
  case (Cons w ws')
  with assms have w: "w \<noteq> []" "\<not> is_ws (hd w)"
    using hd_in_set [of w] by (auto simp: words_ok_Cons)
  have "last ws \<in> set ws"
    using Cons by (intro last_in_set) simp
  with assms have l: "last ws \<noteq> []" "\<forall>c \<in> set (last ws). \<not> is_ws c"
    by (auto simp: words_ok_def)
  then have "\<not> is_ws (last (last ws))"
    using last_in_set [of "last ws"] by blast
  moreover have "last (glue_by k ws) = last (last ws)"
    using assms Cons by (intro last_glue_by) simp_all
  moreover have "hd (glue_by k ws) = hd w"
    unfolding Cons using w(1) by (rule hd_glue_by)
  ultimately show ?thesis
    using w by (simp add: trimmed_def)
qed

lemma single_spaced_glue_by:
  assumes "words_ok ws"
  shows "single_spaced (glue_by k ws)"
proof -
  have "\<forall>c \<in> set (glue_by k ws). is_ws c \<longrightarrow> c = 0x20"
    using assms set_glue_by [of k ws] by (auto simp: words_ok_def)
  moreover have "\<not> sublist [0x20, 0x20] (glue_by k ws)"
    using assms
  proof (rule glue_by_no_pair)
    show "(0x20 :: unit16) = 0x20 \<or> (0x20 :: unit16) = 0x20" by simp
  next
    fix w w' :: jsstring
    assume "w \<noteq> []" "w' \<noteq> []" "0x20 \<notin> set w" "0x20 \<notin> set w'"
    then show "\<not> (0x20 = (0x20 :: unit16) \<and> last w = 0x20) \<and> \<not> (0x20 = (0x20 :: unit16) \<and> hd w' = 0x20)"
      using last_not_space [of w "0x20"] hd_not_space [of w' "0x20"] by blast
  qed
  ultimately show ?thesis
    by (simp add: single_spaced_def)
qed

lemma no_space_before_lt:
  assumes "words_ok ws"
  shows "\<not> sublist [0x20, 0x3C] (glue_by tag_spaced ws)"
  using assms
  by (rule glue_by_no_pair) (simp_all add: tag_spaced_def)

lemma no_space_after_gt:
  assumes "words_ok ws"
  shows "\<not> sublist [0x3E, 0x20] (glue_by tag_spaced ws)"
  using assms
  by (rule glue_by_no_pair) (simp_all add: tag_spaced_def)

text \<open>
  C4: a string returned by \<open>ssml\<close> is made of the words of the concatenated
  fragments and escaped values, in their order, one space apart, but with no space
  where the word on the left ends with \<^verbatim>\<open>>\<close> or the word on the right starts with
  \<^verbatim>\<open><\<close>. So it has no whitespace at its ends, its only whitespace is single spaces
  (a run of whitespace, newlines included, has become one space), no space stands
  before a \<^verbatim>\<open><\<close> and none after a \<^verbatim>\<open>>\<close>.
\<close>

theorem ssml_normalizes_whitespace:
  assumes "ssml template inputs = Inr s"
  shows "s = glue_by tag_spaced (ws_words (weave template (map escape inputs))) \<and>
         trimmed s \<and> single_spaced s \<and>
         \<not> sublist (js '' <'') s \<and> \<not> sublist (js ''> '') s"
proof -
  let ?ws = "ws_words (weave template (map escape inputs))"
  have "\<not> (template = [] \<or> Suc (length inputs) < length template)"
  proof
    assume "template = [] \<or> Suc (length inputs) < length template"
    then have "ssml template inputs = Inl TypeError" by (rule ssml_TypeError)
    with assms show False by simp
  qed
  then have "ssml template inputs = Inr (normalize_ws (weave template (map escape inputs)))"
    by (intro ssml_weave) simp_all
  with assms have s: "s = glue_by tag_spaced ?ws"
    by (simp add: normalize_glue)
  have ok: "words_ok ?ws" by (rule ws_words_ok)
  show ?thesis
    unfolding s
    using trimmed_glue_by [OF ok] single_spaced_glue_by [OF ok] no_space_before_lt [OF ok]
      no_space_after_gt [OF ok]
    by simp
qed

theorem ssml_normalizes_whitespace_witness:
  "ssml [js ''\<newline>  <speak>\<newline>\<newline>    Step  '', js '', exhale.  <break/> \<newline>  </speak>\<newline>''] [js ''1 > 0'']
     = Inr (js ''<speak>Step 1 &gt; 0, exhale.<break/></speak>'') \<and>
   js ''<speak>Step 1 &gt; 0, exhale.<break/></speak>''
     = glue_by tag_spaced (ws_words (weave
         [js ''\<newline>  <speak>\<newline>\<newline>    Step  '', js '', exhale.  <break/> \<newline>  </speak>\<newline>'']
         (map escape [js ''1 > 0'']))) \<and>
   trimmed (js ''<speak>Step 1 &gt; 0, exhale.<break/></speak>'') \<and>
   single_spaced (js ''<speak>Step 1 &gt; 0, exhale.<break/></speak>'') \<and>
   \<not> sublist (js '' <'') (js ''<speak>Step 1 &gt; 0, exhale.<break/></speak>'') \<and>
   \<not> sublist (js ''> '') (js ''<speak>Step 1 &gt; 0, exhale.<break/></speak>'')"
proof -
  have h: "ssml [js ''\<newline>  <speak>\<newline>\<newline>    Step  '', js '', exhale.  <break/> \<newline>  </speak>\<newline>''] [js ''1 > 0'']
     = Inr (js ''<speak>Step 1 &gt; 0, exhale.<break/></speak>'')"
    by (simp add: ssml_def ssml_tag_def reduce_def callback_def escape_def normalize_ws_def trim_def is_ws_def)
  from ssml_normalizes_whitespace [OF h] h show ?thesis
    by blast
qed

section \<open>The Response Composer\<close>

lemma elements_eq:
  "elements = [js ''break'', js ''say-as'', js ''audio'', js ''paragraph'', js ''sub'',
     js ''prosody'', js ''emphasis'', js ''speed'', js ''volume'', js ''pitch'']"
  by (simp add: elements_def examples_def)

lemma examplesList_eq:
  "examplesList = js (''You can ask me about break, say-as, audio, paragraph, sub, '' @
     ''prosody, emphasis, speed, volume, and pitch.'')"
  by (simp add: examplesList_def elements_eq slice0_def element_text_def)

text \<open>
  C5: the topic list names the keys of the catalog in their order: the keys but the last
  joined by \<^verbatim>\<open>", "\<close>, then \<^verbatim>\<open>", and "\<close> and the last key, then a period. The
  keys are distinct, and each occurs in the text exactly once.
\<close>

theorem examplesList_names_every_topic_once:
  "elements = map fst examples \<and>
   distinct elements \<and>
   examplesList =
     js ''You can ask me about '' @ join (js '', '') (butlast elements) @
     js '', and '' @ last elements @ js ''.'' \<and>
   examplesList = js (''You can ask me about break, say-as, audio, paragraph, sub, '' @
     ''prosody, emphasis, speed, volume, and pitch.'') \<and>
   map (\<lambda>topic. occurrences topic examplesList) elements = replicate (length elements) 1 \<and>
   suffix (js ''.'') examplesList"
proof (intro conjI)
  show "elements = map fst examples"
    by (simp add: elements_def)
  show "distinct elements"
    by (simp add: elements_eq)
  show "examplesList =
     js ''You can ask me about '' @ join (js '', '') (butlast elements) @
     js '', and '' @ last elements @ js ''.''"
    by (simp add: examplesList_eq elements_eq)
  show "examplesList = js (''You can ask me about break, say-as, audio, paragraph, sub, '' @
     ''prosody, emphasis, speed, volume, and pitch.'')"
    by (rule examplesList_eq)
  show "map (\<lambda>topic. occurrences topic examplesList) elements = replicate (length elements) 1"
    by (simp add: examplesList_eq elements_eq)
  show "suffix (js ''.'') examplesList"
    by (simp add: examplesList_eq suffix_to_prefix)
qed

text \<open>
  C10: \<open>didNotUnderstand\<close> appends a period to \<open>askExample\<close>, which ends with one
  already, so it ends with two periods. The welcome text has \<open>askExample\<close> followed
  by a space and ends with one period only.
\<close>

theorem didNotUnderstand_ends_with_two_periods:
  \<open>didNotUnderstand = js ''Sorry, I didn't understand you. '' @ askExample @ js ''.'' \<and>
   suffix (js ''.'') askExample \<and>
   didNotUnderstand =
     js ''Sorry, I didn't understand you. Ask me for an example of a SSML element..'' \<and>
   suffix (js ''..'') didNotUnderstand \<and>
   welcome_response =
     js ''Welcome! '' @ askExample @
     js '' You can say "give me an example of the prosody element".'' \<and>
   suffix (js ''.'') welcome_response \<and>
   \<not> suffix (js ''..'') welcome_response\<close>
  by (simp add: didNotUnderstand_def askExample_def welcome_response_def suffix_to_prefix)

section \<open>The Intent Dispatcher\<close>

lemma action_names:
  "WELCOME \<noteq> TELL_EXAMPLE" "WELCOME \<noteq> UNRECOGNIZED_DEEP_LINK"
  "TELL_EXAMPLE \<noteq> UNRECOGNIZED_DEEP_LINK"
  by (simp_all add: WELCOME_def TELL_EXAMPLE_def UNRECOGNIZED_DEEP_LINK_def)

lemma handleRequest_WELCOME:
  "action a = WELCOME \<Longrightarrow> handleRequest actionMap a = Some (welcome_handler a)"
  by (simp add: handleRequest_def actionMap_def)

lemma handleRequest_TELL_EXAMPLE:
  "action a = TELL_EXAMPLE \<Longrightarrow> handleRequest actionMap a = Some (tell_example_handler a)"
  using action_names by (simp add: handleRequest_def actionMap_def)

lemma handleRequest_UNRECOGNIZED_DEEP_LINK:
  "action a = UNRECOGNIZED_DEEP_LINK \<Longrightarrow>
   handleRequest actionMap a = Some (unrecognized_deep_link_handler a)"
  using action_names by (simp add: handleRequest_def actionMap_def)

text \<open>
  C6: when the \<open>element\<close> parameter is absent or empty, the tell-example handler asks
  with the two segments \<open>didNotUnderstand\<close> and \<open>examplesList\<close>, which is what the
  handler of unrecognized input does; the dispatch of the two actions sends the same
  response.
\<close>

theorem tell_example_without_topic:
  assumes "getArgument ELEMENT a = None \<or> getArgument ELEMENT a = Some []"
  shows "sent (tell_example_handler a) =
           Some \<lparr>items = [Str didNotUnderstand, Str examplesList]\<rparr> \<and>
         expect_user_response (tell_example_handler a) \<and>
         tell_example_handler a = unrecognized_deep_link_handler a \<and>
         map_option sent (handleRequest actionMap (a\<lparr>action := TELL_EXAMPLE\<rparr>)) =
           map_option sent (handleRequest actionMap (a\<lparr>action := UNRECOGNIZED_DEEP_LINK\<rparr>))"
  using assms
  by (auto simp: handleRequest_TELL_EXAMPLE handleRequest_UNRECOGNIZED_DEEP_LINK
      tell_example_handler_def unrecognized_deep_link_handler_def ask_def
      addSimpleResponse_def buildRichResponse_def getArgument_def)

theorem tell_example_without_topic_witness:
  "(getArgument ELEMENT (DialogflowApp TELL_EXAMPLE Map.empty) = None \<or>
    getArgument ELEMENT (DialogflowApp TELL_EXAMPLE Map.empty) = Some []) \<and>
   sent (tell_example_handler (DialogflowApp TELL_EXAMPLE Map.empty)) =
     Some \<lparr>items = [Str didNotUnderstand, Str examplesList]\<rparr>"
proof -
  have h: "getArgument ELEMENT (DialogflowApp TELL_EXAMPLE Map.empty) = None \<or>
    getArgument ELEMENT (DialogflowApp TELL_EXAMPLE Map.empty) = Some []"
    by (simp add: getArgument_def DialogflowApp_def)
  from tell_example_without_topic [OF h] h show ?thesis
    by blast
qed

text \<open>
  C9: for each of the three actions, whatever the parameters of the request, the
  dispatch runs a handler that ends with \<open>ask\<close>: a response is sent and the
  conversation expects the user's next input.
\<close>

theorem dispatch_expects_user_response:
  assumes "action a = WELCOME \<or> action a = TELL_EXAMPLE \<or> action a = UNRECOGNIZED_DEEP_LINK"
  shows "\<exists>a' r. handleRequest actionMap a = Some a' \<and> sent a' = Some r \<and>
           expect_user_response a'"
  using assms
  by (auto simp: handleRequest_WELCOME handleRequest_TELL_EXAMPLE
      handleRequest_UNRECOGNIZED_DEEP_LINK welcome_handler_def tell_example_handler_def
      unrecognized_deep_link_handler_def ask_def split: option.splits)

theorem dispatch_expects_user_response_witness:
  "(action (DialogflowApp TELL_EXAMPLE [ELEMENT \<mapsto> js ''pitch'']) = WELCOME \<or>
    action (DialogflowApp TELL_EXAMPLE [ELEMENT \<mapsto> js ''pitch'']) = TELL_EXAMPLE \<or>
    action (DialogflowApp TELL_EXAMPLE [ELEMENT \<mapsto> js ''pitch''])
      = UNRECOGNIZED_DEEP_LINK) \<and>
   (\<exists>a' r. handleRequest actionMap (DialogflowApp TELL_EXAMPLE [ELEMENT \<mapsto> js ''pitch''])
       = Some a' \<and> sent a' = Some r \<and> expect_user_response a')"
proof -
  have h: "action (DialogflowApp TELL_EXAMPLE [ELEMENT \<mapsto> js ''pitch'']) = WELCOME \<or>
    action (DialogflowApp TELL_EXAMPLE [ELEMENT \<mapsto> js ''pitch'']) = TELL_EXAMPLE \<or>
    action (DialogflowApp TELL_EXAMPLE [ELEMENT \<mapsto> js ''pitch''])
      = UNRECOGNIZED_DEEP_LINK"
    by (simp add: DialogflowApp_def)
  from dispatch_expects_user_response [OF h] h show ?thesis
    by blast
qed

text \<open>
  The welcome action sends two segments: the welcome text, then the list of topics.
\<close>

theorem welcome_dispatch_two_segments:
  "map_option sent (handleRequest actionMap (a\<lparr>action := WELCOME\<rparr>)) =
     Some (Some \<lparr>items = [Str welcome_response, Str examplesList]\<rparr>)"
  by (simp add: handleRequest_WELCOME welcome_handler_def ask_def addSimpleResponse_def
      buildRichResponse_def)

text \<open>
  The document stored for \<^verbatim>\<open>break\<close>, as the tag function leaves it.
\<close>

lemma break_example:
  \<open>tagged break_template =
     js (''<speak>Step 1, take a deep breath.<break time="200ms" strength="weak"/>'' @
         ''Step 2, exhale.</speak>'')\<close>
  by (simp add: tagged_def ssml_literal break_template_def cooked_def normalize_ws_def trim_def
      is_ws_def)

text \<open>
  A tell-example request for a topic of the catalog sends two segments: the lead-in
  naming the topic, then the document stored for it.
\<close>

theorem tell_example_known_topic:
  assumes "getArgument ELEMENT a = Some topic" and "map_of examples topic = Some doc"
  shows "sent (tell_example_handler a) =
           Some \<lparr>items = [Str (leadToExample topic), Str doc]\<rparr> \<and>
         expect_user_response (tell_example_handler a)"
proof -
  have "map_of examples [] = None"
    by (simp add: examples_def)
  with assms(2) have "topic \<noteq> []" by auto
  with assms show ?thesis
    by (simp add: tell_example_handler_def get_property_def ask_def addSimpleResponse_def
        buildRichResponse_def)
qed

theorem tell_example_known_topic_witness:
  \<open>getArgument ELEMENT (DialogflowApp TELL_EXAMPLE [ELEMENT \<mapsto> js ''break'']) = Some (js ''break'') \<and>
   map_of examples (js ''break'') = Some (tagged break_template) \<and>
   sent (tell_example_handler (DialogflowApp TELL_EXAMPLE [ELEMENT \<mapsto> js ''break''])) =
     Some \<lparr>items = [Str (js ''Ok, here's an SSML example of break.''),
       Str (js (''<speak>Step 1, take a deep breath.<break time="200ms" strength="weak"/>'' @
         ''Step 2, exhale.</speak>''))]\<rparr>\<close>
proof -
  have h1: "getArgument ELEMENT (DialogflowApp TELL_EXAMPLE [ELEMENT \<mapsto> js ''break''])
      = Some (js ''break'')"
    by (simp add: getArgument_def DialogflowApp_def)
  have h2: "map_of examples (js ''break'') = Some (tagged break_template)"
    by (simp add: examples_def)
  have l: "leadToExample (js ''break'') = js ''Ok, here's an SSML example of break.''"
    by (simp add: leadToExample_def)
  from tell_example_known_topic [OF h1 h2] h1 h2 show ?thesis
    by (simp only: break_example l simp_thms)
qed

text \<open>
  C1: a tell-example request whose \<open>element\<close> is \<^verbatim>\<open>foo\<close>, which is not a key of
  the catalog. The handler takes the branch of a given topic: it asks with the lead-in
  naming \<^verbatim>\<open>foo\<close> and with \<^verbatim>\<open>examples['foo']\<close>, which is \<^verbatim>\<open>undefined\<close>; the
  response is not the pair \<open>didNotUnderstand\<close>, \<open>examplesList\<close>.
\<close>

theorem tell_example_unknown_topic:
  "js ''foo'' \<notin> set elements \<and>
   tell_example_handler (DialogflowApp TELL_EXAMPLE [ELEMENT \<mapsto> js ''foo'']) =
     \<lparr>action = TELL_EXAMPLE, parameters = [ELEMENT \<mapsto> js ''foo''],
      sent = Some \<lparr>items = [Str (js ''Ok, here's an SSML example of foo.''), Undefined]\<rparr>,
      expect_user_response = True\<rparr> \<and>
   [Str (js ''Ok, here's an SSML example of foo.''), Undefined]
     \<noteq> [Str didNotUnderstand, Str examplesList]"
  by (simp add: elements_eq tell_example_handler_def getArgument_def ask_def
      addSimpleResponse_def buildRichResponse_def leadToExample_def get_property_def
      examples_def object_prototype_names_def DialogflowApp_def)

end
